theory Spec2Isabelle
  imports Complex_Main
begin

section \<open>Data model\<close>

text \<open>
  A cell of a table is the missing value (pandas' NaN / None), a string, an integer or a
  float; a float cell holds the real number that the float64 value denotes. A row is the
  dictionary of one record: an association list from column name to cell. A data frame
  has its column names and its rows; a row that has no entry for a column holds the
  missing value there, as a pandas frame does. The identifiers of the specification are
  strings; cells are compared as they stand.
\<close>

datatype cell = NaN | Str string | Num int | Flt real

type_synonym row = "(string \<times> cell) list"

record dataframe =
  columns :: "string list"
  rows :: "row list"

datatype error = KeyError string

abbreviation chipset_sp :: string where
  "chipset_sp \<equiv> ''Chipset SP''"

abbreviation sr_no :: string where
  "sr_no \<equiv> ''Sr. No''"

section \<open>The pandas operations the program uses\<close>

text \<open>\<open>entry[c]\<close> on a record of a frame: the cell under column \<open>c\<close>.\<close>

definition cell_at :: "row \<Rightarrow> string \<Rightarrow> cell" where
  "cell_at r c = (case map_of r c of Some v \<Rightarrow> v | None \<Rightarrow> NaN)"

text \<open>The values of one column, row by row.\<close>

definition series :: "dataframe \<Rightarrow> string \<Rightarrow> cell list" where
  "series df c = map (\<lambda>r. cell_at r c) (rows df)"

text \<open>\<open>df[c]\<close>: raises KeyError when the frame has no column \<open>c\<close>.\<close>

definition getitem :: "dataframe \<Rightarrow> string \<Rightarrow> error + cell list" where
  "getitem df c = (if c \<in> set (columns df) then Inr (series df c) else Inl (KeyError c))"

definition dropna :: "cell list \<Rightarrow> cell list" where
  "dropna col = filter (\<lambda>v. v \<noteq> NaN) col"

text \<open>\<open>Series.unique()\<close>: the distinct values, in order of first appearance.\<close>

definition unique :: "cell list \<Rightarrow> cell list" where
  "unique col = rev (remdups (rev col))"

definition isin :: "cell list \<Rightarrow> cell set \<Rightarrow> bool list" where
  "isin col vals = map (\<lambda>v. v \<in> vals) col"

text \<open>\<open>df[mask]\<close>: the rows whose mask entry is true.\<close>

definition loc_mask :: "dataframe \<Rightarrow> bool list \<Rightarrow> dataframe" where
  "loc_mask df m = df\<lparr>rows := map fst (filter snd (zip (rows df) m))\<rparr>"

text \<open>\<open>df.to_dict('records')\<close>: one dictionary per row, with an entry for every column.\<close>

definition to_dict_records :: "dataframe \<Rightarrow> row list" where
  "to_dict_records df = map (\<lambda>r. map (\<lambda>c. (c, cell_at r c)) (columns df)) (rows df)"

text \<open>
  \<open>pd.DataFrame(records)\<close>: the columns are the keys in order of first appearance, and
  the type of every column is inferred again from its cells. A column that holds a string
  keeps its cells as they are. A column without strings that holds integers in the int64
  range, together with a missing value or a float, becomes a float64 column: every integer
  in it is converted to the nearest float64, ties to even. Every other column keeps its
  cells.
\<close>

text \<open>
  The integer value of the float64 nearest to an integer below \<open>2 ^ 64\<close> in absolute
  value: \<open>e\<close> is the number of bits beyond the 53 of the significand.
\<close>

definition round_float64 :: "int \<Rightarrow> int" where
  "round_float64 n =
     (let a = \<bar>n\<bar>;
          e = length (filter (\<lambda>k. 2 ^ (53 + k) \<le> a) [0..<11]);
          q = a div 2 ^ e;
          r = a mod 2 ^ e;
          q' = (if 2 * r > 2 ^ e \<or> (2 * r = 2 ^ e \<and> odd q) then q + 1 else q)
      in sgn n * (q' * 2 ^ e))"

definition astype_float64 :: "cell \<Rightarrow> cell" where
  "astype_float64 v = (case v of Num n \<Rightarrow> Flt (real_of_int (round_float64 n)) | _ \<Rightarrow> v)"

definition is_Str :: "cell \<Rightarrow> bool" where
  "is_Str v = (case v of Str s \<Rightarrow> True | _ \<Rightarrow> False)"

definition is_Num :: "cell \<Rightarrow> bool" where
  "is_Num v = (case v of Num n \<Rightarrow> True | _ \<Rightarrow> False)"

definition is_Flt :: "cell \<Rightarrow> bool" where
  "is_Flt v = (case v of Flt x \<Rightarrow> True | _ \<Rightarrow> False)"

definition in_int64 :: "cell \<Rightarrow> bool" where
  "in_int64 v = (case v of Num n \<Rightarrow> - (2 ^ 63) \<le> n \<and> n < 2 ^ 63 | _ \<Rightarrow> True)"

definition float_column :: "cell list \<Rightarrow> bool" where
  "float_column vs =
     (list_all (\<lambda>v. \<not> is_Str v) vs \<and> list_all in_int64 vs \<and> list_ex is_Num vs \<and>
      list_ex (\<lambda>v. v = NaN \<or> is_Flt v) vs)"

definition convert_row :: "row list \<Rightarrow> row \<Rightarrow> row" where
  "convert_row recs r =
     map (\<lambda>kv. (fst kv,
                 if float_column (map (\<lambda>r. cell_at r (fst kv)) recs)
                 then astype_float64 (snd kv) else snd kv)) r"

definition infer_objects :: "row list \<Rightarrow> row list" where
  "infer_objects recs = map (convert_row recs) recs"

definition DataFrame :: "row list \<Rightarrow> dataframe" where
  "DataFrame recs =
     \<lparr>columns = foldl (\<lambda>cols k. if k \<in> set cols then cols else cols @ [k]) []
                  (concat (map (map fst) recs)),
      rows = infer_objects recs\<rparr>"

definition drop_column :: "dataframe \<Rightarrow> string \<Rightarrow> dataframe" where
  "drop_column df c =
     \<lparr>columns = filter (\<lambda>k. k \<noteq> c) (columns df),
      rows = map (filter (\<lambda>kv. fst kv \<noteq> c)) (rows df)\<rparr>"

text \<open>\<open>df.insert(0, c, vals)\<close>: a new first column.\<close>

definition insert_first :: "dataframe \<Rightarrow> string \<Rightarrow> cell list \<Rightarrow> dataframe" where
  "insert_first df c vals =
     \<lparr>columns = c # columns df,
      rows = map (\<lambda>vr. (c, fst vr) # snd vr) (zip vals (rows df))\<rparr>"

section \<open>load_data\<close>

text \<open>
  The argument stands for the table that \<open>read_csv\<close> parses from the uploaded file,
  \<open>None\<close> when no file was given. \<open>df.loc[:, keep]\<close> keeps the columns selected by
  the mask; the mask drops every column whose name starts with \<open>Unnamed\<close>.
\<close>

definition startswith :: "string \<Rightarrow> string \<Rightarrow> bool" where
  "startswith s p = (take (length p) s = p)"

definition loc_columns :: "dataframe \<Rightarrow> (string \<Rightarrow> bool) \<Rightarrow> dataframe" where
  "loc_columns df keep =
     \<lparr>columns = filter keep (columns df),
      rows = map (filter (\<lambda>kv. keep (fst kv))) (rows df)\<rparr>"

definition load_data :: "dataframe option \<Rightarrow> dataframe option" where
  "load_data uploaded_file =
     (case uploaded_file of
        None \<Rightarrow> None
      | Some df \<Rightarrow>
          (let df1 = loc_columns df (\<lambda>c. \<not> startswith c ''Unnamed'');
               df2 = (if ''S.No'' \<in> set (columns df1) then drop_column df1 ''S.No'' else df1)
           in Some df2))"

section \<open>add_serial_number\<close>

definition add_serial_number :: "dataframe \<Rightarrow> dataframe" where
  "add_serial_number df =
     (let df1 = (if sr_no \<in> set (columns df) then drop_column df sr_no else df)
      in insert_first df1 sr_no (map (\<lambda>i. Num (int i)) [1..<length (rows df1) + 1]))"

section \<open>compare_chipsets\<close>

text \<open>
  The rows of \<open>data_dict[year]\<close> whose identifier is in \<open>vals\<close>, as records:
  \<open>df[df['Chipset SP'].isin(vals)].to_dict('records')\<close>.
\<close>

definition select_isin :: "dataframe \<Rightarrow> cell set \<Rightarrow> row list" where
  "select_isin df vals = to_dict_records (loc_mask df (isin (series df chipset_sp) vals))"

text \<open>
  First loop: the identifier set of every year. This is the only place where the program
  can fail: a frame without the identifier column raises KeyError. Once this loop has
  succeeded every later subscript of \<open>data_dict\<close>, of \<open>chipset_history\<close> and of the
  identifier column is defined.
\<close>

fun store_chipsets ::
  "('k \<rightharpoonup> dataframe) \<Rightarrow> 'k list \<Rightarrow> ('k \<rightharpoonup> cell set) \<Rightarrow> error + ('k \<rightharpoonup> cell set)" where
  "store_chipsets data_dict [] chipset_history = Inr chipset_history"
| "store_chipsets data_dict (year # years) chipset_history =
     (case getitem (the (data_dict year)) chipset_sp of
        Inl e \<Rightarrow> Inl e
      | Inr col \<Rightarrow>
          store_chipsets data_dict years
            (chipset_history(year \<mapsto> set (unique (dropna col)))))"

text \<open>Second loop: the state is \<open>(all_previous_chipsets, added)\<close>.\<close>

fun find_added ::
  "('k \<rightharpoonup> dataframe) \<Rightarrow> ('k \<rightharpoonup> cell set) \<Rightarrow> 'k list \<Rightarrow> cell set \<times> row list
     \<Rightarrow> cell set \<times> row list" where
  "find_added data_dict chipset_history [] st = st"
| "find_added data_dict chipset_history (year # years) (all_previous_chipsets, added) =
     (let added_chipsets = the (chipset_history year) - all_previous_chipsets;
          all_previous_chipsets' = all_previous_chipsets \<union> the (chipset_history year)
      in find_added data_dict chipset_history years
           (all_previous_chipsets',
            added @ select_isin (the (data_dict year)) added_chipsets))"

text \<open>
  Third loop, over the indices \<open>range(len(year_list) - 1)\<close>: the state is
  \<open>(removed_chipsets_set, removed)\<close>.
\<close>

fun find_removed ::
  "('k \<rightharpoonup> dataframe) \<Rightarrow> ('k \<rightharpoonup> cell set) \<Rightarrow> 'k list \<Rightarrow> nat list \<Rightarrow> cell set \<times> row list
     \<Rightarrow> cell set \<times> row list" where
  "find_removed data_dict chipset_history year_list [] st = st"
| "find_removed data_dict chipset_history year_list (i # is) (removed_chipsets_set, removed) =
     (let prev_year = year_list ! i;
          later_years_chipsets =
            \<Union> (set (map (\<lambda>y. the (chipset_history y)) (drop (i + 1) year_list)));
          removed_chipsets = the (chipset_history prev_year) - later_years_chipsets
      in find_removed data_dict chipset_history year_list is
           (removed_chipsets_set \<union> removed_chipsets,
            removed @ select_isin (the (data_dict prev_year)) removed_chipsets))"

text \<open>
  Fourth loop, over the indices \<open>range(2, len(year_list))\<close>: the state is
  \<open>(reappeared_chipsets_set, reappeared)\<close>.
\<close>

fun find_reappeared ::
  "('k \<rightharpoonup> dataframe) \<Rightarrow> ('k \<rightharpoonup> cell set) \<Rightarrow> 'k list \<Rightarrow> nat list \<Rightarrow> cell set \<times> row list
     \<Rightarrow> cell set \<times> row list" where
  "find_reappeared data_dict chipset_history year_list [] st = st"
| "find_reappeared data_dict chipset_history year_list (year # ys)
       (reappeared_chipsets_set, reappeared) =
     (let older_year = year_list ! (year - 2);
          prev_year = year_list ! (year - 1);
          curr_year = year_list ! year;
          reappeared_chipsets =
            (the (chipset_history older_year) - the (chipset_history prev_year))
              \<inter> the (chipset_history curr_year)
      in find_reappeared data_dict chipset_history year_list ys
           (reappeared_chipsets_set \<union> reappeared_chipsets,
            reappeared @ select_isin (the (data_dict curr_year)) reappeared_chipsets))"

text \<open>\<open>sorted(data_dict.keys())\<close>: a Python dictionary has finitely many keys.\<close>

definition sorted_keys :: "('k::linorder \<rightharpoonup> dataframe) \<Rightarrow> 'k list" where
  "sorted_keys data_dict = sorted_list_of_set (dom data_dict)"

text \<open>
  The function itself: the four loops, the two filters of the reconciliation on the list
  \<open>removed\<close> (the second one reads \<open>year_list[0]\<close> only for an entry of the list), and
  the three numbered frames.
\<close>

definition compare_chipsets ::
  "('k::linorder \<rightharpoonup> dataframe) \<Rightarrow> error + (dataframe \<times> dataframe \<times> dataframe)" where
  "compare_chipsets data_dict =
     (let year_list = sorted_keys data_dict
      in case store_chipsets data_dict year_list Map.empty of
           Inl e \<Rightarrow> Inl e
         | Inr chipset_history \<Rightarrow>
             (let (all_previous_chipsets, added) =
                    find_added data_dict chipset_history year_list ({}, []);
                  (removed_chipsets_set, removed) =
                    find_removed data_dict chipset_history year_list
                      [0..<length year_list - 1] ({}, []);
                  (reappeared_chipsets_set, reappeared) =
                    find_reappeared data_dict chipset_history year_list
                      [2..<length year_list] ({}, []);
                  removed1 =
                    filter (\<lambda>entry. cell_at entry chipset_sp \<notin> reappeared_chipsets_set)
                      removed;
                  removed2 =
                    filter (\<lambda>entry. cell_at entry chipset_sp
                                     \<in> the (chipset_history (year_list ! 0)))
                      removed1
              in Inr (add_serial_number (DataFrame added),
                      add_serial_number (DataFrame removed2),
                      add_serial_number (DataFrame reappeared))))"

section \<open>compare_chipsets with the iteration order of its sets\<close>

text \<open>
  A Python set iterates over its elements in an order that depends on their hashes (for
  strings, on the hash seed of the run) and on the insertions made. Here a set is the list
  of its elements in iteration order, and every operation that builds a set passes the
  elements, in the order it meets them, through \<open>ord\<close>, which stands for the order that
  the run gives them. An order is admissible when it keeps the elements.
\<close>

type_synonym pyset = "cell list"

type_synonym iteration_order = "cell list \<Rightarrow> cell list"

definition admissible :: "iteration_order \<Rightarrow> bool" where
  "admissible ord = (\<forall>xs. set (ord xs) = set xs)"

definition py_set :: "iteration_order \<Rightarrow> cell list \<Rightarrow> pyset" where
  "py_set ord xs = ord (remdups xs)"

definition py_difference :: "iteration_order \<Rightarrow> pyset \<Rightarrow> pyset \<Rightarrow> pyset" where
  "py_difference ord a b = ord (filter (\<lambda>x. x \<notin> set b) a)"

definition py_intersection :: "iteration_order \<Rightarrow> pyset \<Rightarrow> pyset \<Rightarrow> pyset" where
  "py_intersection ord a b = ord (filter (\<lambda>x. x \<in> set b) a)"

definition py_update :: "iteration_order \<Rightarrow> pyset \<Rightarrow> pyset \<Rightarrow> pyset" where
  "py_update ord a b = ord (a @ filter (\<lambda>x. x \<notin> set a) (remdups b))"

definition py_union_all :: "iteration_order \<Rightarrow> pyset list \<Rightarrow> pyset" where
  "py_union_all ord ls = foldl (py_update ord) [] ls"

fun store_chipsets_it ::
  "iteration_order \<Rightarrow> ('k \<rightharpoonup> dataframe) \<Rightarrow> 'k list \<Rightarrow> ('k \<rightharpoonup> pyset)
     \<Rightarrow> error + ('k \<rightharpoonup> pyset)" where
  "store_chipsets_it ord data_dict [] chipset_history = Inr chipset_history"
| "store_chipsets_it ord data_dict (year # years) chipset_history =
     (case getitem (the (data_dict year)) chipset_sp of
        Inl e \<Rightarrow> Inl e
      | Inr col \<Rightarrow>
          store_chipsets_it ord data_dict years
            (chipset_history(year \<mapsto> py_set ord (unique (dropna col)))))"

fun find_added_it ::
  "iteration_order \<Rightarrow> ('k \<rightharpoonup> dataframe) \<Rightarrow> ('k \<rightharpoonup> pyset) \<Rightarrow> 'k list
     \<Rightarrow> pyset \<times> row list \<Rightarrow> pyset \<times> row list" where
  "find_added_it ord data_dict chipset_history [] st = st"
| "find_added_it ord data_dict chipset_history (year # years) (all_previous_chipsets, added) =
     (let added_chipsets =
            py_difference ord (the (chipset_history year)) all_previous_chipsets;
          all_previous_chipsets' =
            py_update ord all_previous_chipsets (the (chipset_history year))
      in find_added_it ord data_dict chipset_history years
           (all_previous_chipsets',
            added @ select_isin (the (data_dict year)) (set added_chipsets)))"

fun find_removed_it ::
  "iteration_order \<Rightarrow> ('k \<rightharpoonup> dataframe) \<Rightarrow> ('k \<rightharpoonup> pyset) \<Rightarrow> 'k list \<Rightarrow> nat list
     \<Rightarrow> pyset \<times> row list \<Rightarrow> pyset \<times> row list" where
  "find_removed_it ord data_dict chipset_history year_list [] st = st"
| "find_removed_it ord data_dict chipset_history year_list (i # is)
       (removed_chipsets_set, removed) =
     (let prev_year = year_list ! i;
          later_years_chipsets =
            py_union_all ord (map (\<lambda>y. the (chipset_history y)) (drop (i + 1) year_list));
          removed_chipsets =
            py_difference ord (the (chipset_history prev_year)) later_years_chipsets
      in find_removed_it ord data_dict chipset_history year_list is
           (py_update ord removed_chipsets_set removed_chipsets,
            removed @ select_isin (the (data_dict prev_year)) (set removed_chipsets)))"

fun find_reappeared_it ::
  "iteration_order \<Rightarrow> ('k \<rightharpoonup> dataframe) \<Rightarrow> ('k \<rightharpoonup> pyset) \<Rightarrow> 'k list \<Rightarrow> nat list
     \<Rightarrow> pyset \<times> row list \<Rightarrow> pyset \<times> row list" where
  "find_reappeared_it ord data_dict chipset_history year_list [] st = st"
| "find_reappeared_it ord data_dict chipset_history year_list (year # ys)
       (reappeared_chipsets_set, reappeared) =
     (let older_year = year_list ! (year - 2);
          prev_year = year_list ! (year - 1);
          curr_year = year_list ! year;
          reappeared_chipsets =
            py_intersection ord
              (py_difference ord (the (chipset_history older_year))
                 (the (chipset_history prev_year)))
              (the (chipset_history curr_year))
      in find_reappeared_it ord data_dict chipset_history year_list ys
           (py_update ord reappeared_chipsets_set reappeared_chipsets,
            reappeared @ select_isin (the (data_dict curr_year)) (set reappeared_chipsets)))"

definition compare_chipsets_it ::
  "iteration_order \<Rightarrow> ('k::linorder \<rightharpoonup> dataframe)
     \<Rightarrow> error + (dataframe \<times> dataframe \<times> dataframe)" where
  "compare_chipsets_it ord data_dict =
     (let year_list = sorted_keys data_dict
      in case store_chipsets_it ord data_dict year_list Map.empty of
           Inl e \<Rightarrow> Inl e
         | Inr chipset_history \<Rightarrow>
             (let (all_previous_chipsets, added) =
                    find_added_it ord data_dict chipset_history year_list ([], []);
                  (removed_chipsets_set, removed) =
                    find_removed_it ord data_dict chipset_history year_list
                      [0..<length year_list - 1] ([], []);
                  (reappeared_chipsets_set, reappeared) =
                    find_reappeared_it ord data_dict chipset_history year_list
                      [2..<length year_list] ([], []);
                  removed1 =
                    filter (\<lambda>entry. cell_at entry chipset_sp \<notin> set reappeared_chipsets_set)
                      removed;
                  removed2 =
                    filter (\<lambda>entry. cell_at entry chipset_sp
                                     \<in> set (the (chipset_history (year_list ! 0))))
                      removed1
              in Inr (add_serial_number (DataFrame added),
                      add_serial_number (DataFrame removed2),
                      add_serial_number (DataFrame reappeared))))"

text \<open>The history of lists represents the history of sets on the keys \<open>Y\<close>.\<close>

definition represents :: "('k \<rightharpoonup> pyset) \<Rightarrow> ('k \<rightharpoonup> cell set) \<Rightarrow> 'k set \<Rightarrow> bool" where
  "represents hl h Y = (\<forall>y\<in>Y. \<exists>l. hl y = Some l \<and> h y = Some (set l))"

section \<open>The notions of the specification\<close>

text \<open>
  The periods are numbered from 0 in ascending key order: \<open>period d i\<close> is the frame of the
  period at index \<open>i\<close>, \<open>records d i\<close> its records and \<open>S d i\<close> its identifier set, the
  set of the non-null identifiers of its rows.
\<close>

definition identifier_set :: "dataframe \<Rightarrow> cell set" where
  "identifier_set df =
     set (filter (\<lambda>v. v \<noteq> NaN) (map (\<lambda>r. cell_at r chipset_sp) (rows df)))"

definition period :: "('k::linorder \<rightharpoonup> dataframe) \<Rightarrow> nat \<Rightarrow> dataframe" where
  "period d i = the (d (sorted_keys d ! i))"

definition records :: "('k::linorder \<rightharpoonup> dataframe) \<Rightarrow> nat \<Rightarrow> row list" where
  "records d i = to_dict_records (period d i)"

definition S :: "('k::linorder \<rightharpoonup> dataframe) \<Rightarrow> nat \<Rightarrow> cell set" where
  "S d i = identifier_set (period d i)"

abbreviation ident :: "row \<Rightarrow> cell" where
  "ident r \<equiv> cell_at r chipset_sp"

text \<open>
  The candidate lists of the three classification loops and the set of the identifiers
  classified as reappeared, for the history \<open>h\<close> that the first loop has built.
\<close>

definition added_list :: "('k::linorder \<rightharpoonup> dataframe) \<Rightarrow> ('k \<rightharpoonup> cell set) \<Rightarrow> row list" where
  "added_list d h = snd (find_added d h (sorted_keys d) ({}, []))"

definition removed_candidates ::
  "('k::linorder \<rightharpoonup> dataframe) \<Rightarrow> ('k \<rightharpoonup> cell set) \<Rightarrow> row list" where
  "removed_candidates d h =
     snd (find_removed d h (sorted_keys d) [0..<length (sorted_keys d) - 1] ({}, []))"

definition reappeared_list ::
  "('k::linorder \<rightharpoonup> dataframe) \<Rightarrow> ('k \<rightharpoonup> cell set) \<Rightarrow> row list" where
  "reappeared_list d h =
     snd (find_reappeared d h (sorted_keys d) [2..<length (sorted_keys d)] ({}, []))"

definition reappeared_ids ::
  "('k::linorder \<rightharpoonup> dataframe) \<Rightarrow> ('k \<rightharpoonup> cell set) \<Rightarrow> cell set" where
  "reappeared_ids d h =
     fst (find_reappeared d h (sorted_keys d) [2..<length (sorted_keys d)] ({}, []))"

text \<open>
  Step 3 of the specification in its own words: a single ascending pass over the periods,
  each given by its identifier set and its records, with the running union \<open>U\<close>.
\<close>

fun added_pass :: "(cell set \<times> row list) list \<Rightarrow> cell set \<Rightarrow> row list \<Rightarrow> row list" where
  "added_pass [] U added = added"
| "added_pass ((Si, recs) # ps) U added =
     added_pass ps (U \<union> Si) (added @ filter (\<lambda>r. ident r \<in> Si - U) recs)"

text \<open>The sequence numbering of an output list, as \<open>add_serial_number\<close> produces it.\<close>

definition numbered :: "row list \<Rightarrow> row list" where
  "numbered recs =
     map (\<lambda>ir. (sr_no, Num (int (fst ir))) # filter (\<lambda>kv. fst kv \<noteq> sr_no) (snd ir))
       (zip [1..<length recs + 1] recs)"

text \<open>The list \<open>removed\<close> after the reconciliation, in the terms of the specification.\<close>

definition removed_list :: "('k::linorder \<rightharpoonup> dataframe) \<Rightarrow> ('k \<rightharpoonup> cell set) \<Rightarrow> row list" where
  "removed_list d h =
     filter (\<lambda>r. ident r \<notin> reappeared_ids d h \<and> ident r \<in> S d 0) (removed_candidates d h)"

section \<open>Example inputs\<close>

text \<open>
  A record with an identifier and a customer, and a frame with these two columns. The
  years are natural numbers here; any linearly ordered key type will do.
\<close>

definition rec1 :: "string \<Rightarrow> string \<Rightarrow> row" where
  "rec1 i c = [(chipset_sp, Str i), (''Customer'', Str c)]"

definition frame :: "row list \<Rightarrow> dataframe" where
  "frame rs = \<lparr>columns = [chipset_sp, ''Customer''], rows = rs\<rparr>"

definition two_periods :: "nat \<rightharpoonup> dataframe" where
  "two_periods = map_of
     [(2021, frame [rec1 ''b'' ''u'', rec1 ''c'' ''v'']),
      (2020, frame [rec1 ''a'' ''u'', rec1 ''b'' ''u'', rec1 ''a'' ''w''])]"




definition four_periods :: "nat \<rightharpoonup> dataframe" where
  "four_periods = map_of
     [(2020, frame [rec1 ''a'' ''p1'', rec1 ''b'' ''p1'', rec1 ''x'' ''p1'']),
      (2021, frame [rec1 ''x'' ''p2'', rec1 ''y'' ''p2'']),
      (2022, frame [rec1 ''a'' ''p3'', rec1 ''x'' ''p3'']),
      (2023, frame [rec1 ''x'' ''p4''])]"

definition four_periods_history :: "nat \<rightharpoonup> cell set" where
  "four_periods_history =
     [2020 \<mapsto> {Str ''a'', Str ''b'', Str ''x''}, 2021 \<mapsto> {Str ''x'', Str ''y''},
      2022 \<mapsto> {Str ''a'', Str ''x''}, 2023 \<mapsto> {Str ''x''}]"

text \<open>A frame of numbered output records over the columns of \<open>frame\<close>.\<close>

definition out_frame :: "row list \<Rightarrow> dataframe" where
  "out_frame rs = \<lparr>columns = [sr_no, chipset_sp, ''Customer''], rows = rs\<rparr>"

definition empty_out :: dataframe where
  "empty_out = \<lparr>columns = [sr_no], rows = []\<rparr>"

definition four_periods_out :: "dataframe \<times> dataframe \<times> dataframe" where
  "four_periods_out =
     (out_frame [(sr_no, Num 1) # rec1 ''a'' ''p1'', (sr_no, Num 2) # rec1 ''b'' ''p1'',
                 (sr_no, Num 3) # rec1 ''x'' ''p1'', (sr_no, Num 4) # rec1 ''y'' ''p2''],
      out_frame [(sr_no, Num 1) # rec1 ''b'' ''p1''],
      out_frame [(sr_no, Num 1) # rec1 ''a'' ''p3''])"

definition null_frame :: dataframe where
  "null_frame = frame [rec1 ''a'' ''u'', [(''Customer'', Str ''v'')],
                       [(chipset_sp, NaN), (''Customer'', Str ''w'')]]"

definition single_period :: "nat \<rightharpoonup> dataframe" where
  "single_period = map_of [(2020, null_frame)]"

definition single_period_out :: "dataframe \<times> dataframe \<times> dataframe" where
  "single_period_out = (out_frame [(sr_no, Num 1) # rec1 ''a'' ''u''], empty_out, empty_out)"

definition empty_id_period :: "nat \<rightharpoonup> dataframe" where
  "empty_id_period = map_of [(2020, frame [rec1 '''' ''u'', rec1 ''a'' ''v''])]"

definition serial_frame :: dataframe where
  "serial_frame = \<lparr>columns = [sr_no, chipset_sp, ''Customer''],
                    rows = [(sr_no, Num 7) # rec1 ''a'' ''u'']\<rparr>"







section \<open>Auxiliary lemmas\<close>

lemma set_unique: "set (unique col) = set col"
  by (simp add: unique_def)

lemma mask_filter: "map fst (filter snd (zip xs (map P xs))) = filter P xs"
  by (induction xs) auto

lemma select_isin_filter:
  "select_isin df vals =
     map (\<lambda>r. map (\<lambda>c. (c, cell_at r c)) (columns df))
       (filter (\<lambda>r. ident r \<in> vals) (rows df))"
proof -
  have "isin (series df chipset_sp) vals = map (\<lambda>r. ident r \<in> vals) (rows df)"
    by (simp add: isin_def series_def)
  then show ?thesis
    by (simp add: select_isin_def to_dict_records_def loc_mask_def mask_filter)
qed

lemma cell_at_norm:
  "c \<in> set cols \<Longrightarrow> cell_at (map (\<lambda>c. (c, cell_at r c)) cols) c = cell_at r c"
  by (induction cols) (auto simp: cell_at_def)

lemma select_isin_records:
  "chipset_sp \<in> set (columns df) \<Longrightarrow>
   select_isin df vals = filter (\<lambda>r. ident r \<in> vals) (to_dict_records df)"
  by (simp add: select_isin_filter to_dict_records_def filter_map comp_def cell_at_norm)

lemma sorted_keys_map_of: "sorted_keys (map_of xs) = sort (remdups (map fst xs))"
  by (simp add: sorted_keys_def dom_map_of_conv_image_fst sorted_list_of_set_sort_remdups flip: set_map)

lemma set_sorted_keys: "finite (dom d) \<Longrightarrow> set (sorted_keys d) = dom d"
  by (simp add: sorted_keys_def)

lemma distinct_sorted_keys: "distinct (sorted_keys d)"
  by (simp add: sorted_keys_def)

lemma identifier_set_series:
  "set (unique (dropna (series df chipset_sp))) = identifier_set df"
  by (simp add: set_unique dropna_def series_def identifier_set_def)

lemma store_chipsets_Inr:
  "store_chipsets d ys h0 = Inr h \<longleftrightarrow>
     (\<forall>y\<in>set ys. chipset_sp \<in> set (columns (the (d y)))) \<and>
     h = (\<lambda>y. if y \<in> set ys then Some (identifier_set (the (d y))) else h0 y)"
proof (induction ys arbitrary: h0)
  case Nil
  show ?case by auto
next
  case (Cons y ys)
  show ?case
  proof (cases "chipset_sp \<in> set (columns (the (d y)))")
    case False
    then show ?thesis by (simp add: getitem_def)
  next
    case True
    have "(\<lambda>z. if z \<in> set ys then Some (identifier_set (the (d z)))
               else (h0(y \<mapsto> identifier_set (the (d y)))) z)
        = (\<lambda>z. if z \<in> set (y # ys) then Some (identifier_set (the (d z))) else h0 z)"
      by (rule ext) simp
    with True show ?thesis
      by (simp add: getitem_def Cons.IH identifier_set_series)
  qed
qed

lemma store_chipsets_succeeds:
  "\<forall>y\<in>set (sorted_keys d). chipset_sp \<in> set (columns (the (d y))) \<Longrightarrow>
   \<exists>h. store_chipsets d (sorted_keys d) Map.empty = Inr h"
  by (simp add: store_chipsets_Inr)

lemma store_chipsets_Inl:
  "store_chipsets d ys h0 = Inl e \<Longrightarrow> e = KeyError chipset_sp"
  by (induction ys arbitrary: h0) (auto simp: getitem_def split: if_splits)

lemma find_added_pass:
  "\<forall>y\<in>set ys. chipset_sp \<in> set (columns (the (d y))) \<Longrightarrow>
   find_added d h ys (U, acc) =
     (U \<union> \<Union> (set (map (\<lambda>y. the (h y)) ys)),
      added_pass (map (\<lambda>y. (the (h y), to_dict_records (the (d y)))) ys) U acc)"
proof (induction ys arbitrary: U acc)
  case Nil
  show ?case by simp
next
  case (Cons y ys)
  then show ?case
    by (simp add: select_isin_records Un_assoc)
qed

lemma added_pass_concat:
  "added_pass ps U acc =
     acc @ concat (map (\<lambda>i. filter (\<lambda>r. ident r \<in> fst (ps ! i) \<and> ident r \<notin> U \<and>
                                       (\<forall>j<i. ident r \<notin> fst (ps ! j))) (snd (ps ! i)))
                    [0..<length ps])"
proof (induction ps arbitrary: U acc)
  case Nil
  show ?case by simp
next
  case (Cons p ps)
  obtain Si recs where p: "p = (Si, recs)" by (cases p)
  have "\<And>i r. (ident r \<in> fst (ps ! i) \<and> ident r \<notin> U \<union> Si \<and> (\<forall>j<i. ident r \<notin> fst (ps ! j)))
        = (ident r \<in> fst (ps ! i) \<and> ident r \<notin> U \<and> (\<forall>j<Suc i. ident r \<notin> fst ((p # ps) ! j)))"
    by (auto simp: p All_less_Suc2)
  then show ?case
    by (simp add: p Cons.IH map_upt_Suc del: upt_Suc)
qed

lemma map_by_index: "map f xs = map (\<lambda>i. f (xs ! i)) [0..<length xs]"
  by (simp add: map_nth flip: map_map[unfolded comp_def])

lemma find_removed_concat:
  "find_removed d h yl is (rs, acc) =
     (rs \<union> \<Union> (set (map (\<lambda>i. the (h (yl ! i)) -
                 \<Union> (set (map (\<lambda>y. the (h y)) (drop (i + 1) yl)))) is)),
      acc @ concat (map (\<lambda>i. select_isin (the (d (yl ! i)))
                 (the (h (yl ! i)) - \<Union> (set (map (\<lambda>y. the (h y)) (drop (i + 1) yl))))) is))"
  by (induction "is" arbitrary: rs acc) (simp_all add: Un_assoc Let_def)

lemma find_reappeared_concat:
  "find_reappeared d h yl is (rs, acc) =
     (rs \<union> \<Union> (set (map (\<lambda>i. (the (h (yl ! (i - 2))) - the (h (yl ! (i - 1))))
                              \<inter> the (h (yl ! i))) is)),
      acc @ concat (map (\<lambda>i. select_isin (the (d (yl ! i)))
                 ((the (h (yl ! (i - 2))) - the (h (yl ! (i - 1)))) \<inter> the (h (yl ! i)))) is))"
  by (induction "is" arbitrary: rs acc) (simp_all add: Un_assoc Let_def)

lemma later_union:
  "\<Union> (set (map f (drop k xs))) = (\<Union>j\<in>{k..<length xs}. f (xs ! j))"
proof -
  have "drop k xs = map (\<lambda>j. xs ! j) [k..<length xs]"
    by (metis drop_map drop_upt map_nth add_0)
  then show ?thesis by simp
qed


lemma history_at:
  assumes "store_chipsets d (sorted_keys d) Map.empty = Inr h"
    and "i < length (sorted_keys d)"
  shows "the (h (sorted_keys d ! i)) = S d i"
    and "chipset_sp \<in> set (columns (period d i))"
  using assms by (simp_all add: store_chipsets_Inr S_def period_def)

lemma select_isin_period:
  assumes "store_chipsets d (sorted_keys d) Map.empty = Inr h"
    and "i < length (sorted_keys d)"
  shows "select_isin (the (d (sorted_keys d ! i))) X = filter (\<lambda>r. ident r \<in> X) (records d i)"
  using history_at(2)[OF assms] by (simp add: select_isin_records records_def period_def)

lemma ident_in_identifier_set:
  assumes "chipset_sp \<in> set (columns df)" and "r \<in> set (to_dict_records df)"
  shows "ident r \<in> identifier_set df \<longleftrightarrow> ident r \<noteq> NaN"
  using assms by (auto simp: to_dict_records_def identifier_set_def cell_at_norm)

lemma NaN_notin_identifier_set: "NaN \<notin> identifier_set df"
  by (simp add: identifier_set_def)


lemma removed_candidates_closed:
  assumes "store_chipsets d (sorted_keys d) Map.empty = Inr h"
  shows "removed_candidates d h =
     concat (map (\<lambda>i. filter (\<lambda>r. ident r \<in> S d i \<and>
                                   ident r \<notin> (\<Union>j\<in>{i + 1..<length (sorted_keys d)}. S d j))
                          (records d i))
               [0..<length (sorted_keys d) - 1])"
proof -
  let ?yl = "sorted_keys d"
  have later: "(\<Union>j\<in>{k..<length ?yl}. the (h (?yl ! j))) = (\<Union>j\<in>{k..<length ?yl}. S d j)" for k
    using history_at(1)[OF assms] by simp
  have "select_isin (the (d (?yl ! i)))
          (the (h (?yl ! i)) - \<Union> (set (map (\<lambda>y. the (h y)) (drop (i + 1) ?yl))))
        = filter (\<lambda>r. ident r \<in> S d i \<and> ident r \<notin> (\<Union>j\<in>{i + 1..<length ?yl}. S d j))
            (records d i)"
    if "i \<in> set [0..<length ?yl - 1]" for i
  proof -
    from that have i: "i < length ?yl" by simp
    show ?thesis
      by (simp only: later_union later select_isin_period[OF assms i] history_at(1)[OF assms i] Diff_iff)
  qed
  then show ?thesis
    unfolding removed_candidates_def find_removed_concat snd_conv append_Nil
    by (intro arg_cong[where f = concat] map_cong refl)
qed


lemma periods_by_index:
  assumes "store_chipsets d (sorted_keys d) Map.empty = Inr h"
  shows "map (\<lambda>y. (the (h y), to_dict_records (the (d y)))) (sorted_keys d)
       = map (\<lambda>i. (S d i, records d i)) [0..<length (sorted_keys d)]"
proof -
  have "map (\<lambda>y. (the (h y), to_dict_records (the (d y)))) (sorted_keys d)
      = map (\<lambda>i. (the (h (sorted_keys d ! i)), to_dict_records (the (d (sorted_keys d ! i)))))
          [0..<length (sorted_keys d)]"
    by (rule map_by_index)
  also have "\<dots> = map (\<lambda>i. (S d i, records d i)) [0..<length (sorted_keys d)]"
    using history_at(1)[OF assms] by (simp add: records_def period_def)
  finally show ?thesis .
qed

lemma added_list_pass:
  assumes "store_chipsets d (sorted_keys d) Map.empty = Inr h"
  shows "added_list d h =
           added_pass (map (\<lambda>i. (S d i, records d i)) [0..<length (sorted_keys d)]) {} []"
proof -
  have "\<forall>y\<in>set (sorted_keys d). chipset_sp \<in> set (columns (the (d y)))"
    using assms by (simp add: store_chipsets_Inr)
  then show ?thesis
    by (simp add: added_list_def find_added_pass periods_by_index[OF assms])
qed

lemma added_list_closed:
  assumes "store_chipsets d (sorted_keys d) Map.empty = Inr h"
  shows "added_list d h =
     concat (map (\<lambda>i. filter (\<lambda>r. ident r \<in> S d i \<and> (\<forall>j<i. ident r \<notin> S d j)) (records d i))
               [0..<length (sorted_keys d)])"
  unfolding added_list_pass[OF assms] added_pass_concat
  by (auto intro!: arg_cong[where f = concat] filter_cong)

lemma reappeared_closed:
  assumes "store_chipsets d (sorted_keys d) Map.empty = Inr h"
  shows "reappeared_list d h =
     concat (map (\<lambda>i. filter (\<lambda>r. ident r \<in> (S d (i - 2) - S d (i - 1)) \<inter> S d i) (records d i))
               [2..<length (sorted_keys d)])"
    and "reappeared_ids d h =
     (\<Union>i\<in>{2..<length (sorted_keys d)}. (S d (i - 2) - S d (i - 1)) \<inter> S d i)"
proof -
  let ?yl = "sorted_keys d"
  have win: "(the (h (?yl ! (i - 2))) - the (h (?yl ! (i - 1)))) \<inter> the (h (?yl ! i))
           = (S d (i - 2) - S d (i - 1)) \<inter> S d i" if "i < length ?yl" for i
  proof -
    from that have "i - 2 < length ?yl" "i - 1 < length ?yl" by simp_all
    then show ?thesis
      using that by (simp only: history_at(1)[OF assms])
  qed
  have "select_isin (the (d (?yl ! i)))
          ((the (h (?yl ! (i - 2))) - the (h (?yl ! (i - 1)))) \<inter> the (h (?yl ! i)))
        = filter (\<lambda>r. ident r \<in> (S d (i - 2) - S d (i - 1)) \<inter> S d i) (records d i)"
    if "i \<in> set [2..<length ?yl]" for i
  proof -
    from that have i: "i < length ?yl" by simp
    show ?thesis
      by (simp only: win[OF i] select_isin_period[OF assms i])
  qed
  then show "reappeared_list d h =
     concat (map (\<lambda>i. filter (\<lambda>r. ident r \<in> (S d (i - 2) - S d (i - 1)) \<inter> S d i) (records d i))
               [2..<length ?yl])"
    unfolding reappeared_list_def find_reappeared_concat snd_conv append_Nil
    by (intro arg_cong[where f = concat] map_cong refl)
  show "reappeared_ids d h =
     (\<Union>i\<in>{2..<length ?yl}. (S d (i - 2) - S d (i - 1)) \<inter> S d i)"
    unfolding reappeared_ids_def find_reappeared_concat fst_conv
    using win by simp
qed


lemma set_foldl_columns:
  "set (foldl (\<lambda>cols k. if k \<in> set cols then cols else cols @ [k]) acc ks) = set acc \<union> set ks"
  by (induction ks arbitrary: acc) auto

lemma set_columns_DataFrame:
  "set (columns (DataFrame recs)) = (\<Union>r\<in>set recs. fst ` set r)"
  by (simp add: DataFrame_def set_foldl_columns)

lemma rows_DataFrame: "rows (DataFrame recs) = infer_objects recs"
  by (simp add: DataFrame_def)

lemma length_infer_objects: "length (infer_objects recs) = length recs"
  by (simp add: infer_objects_def)

lemma infer_objects_nth:
  "i < length recs \<Longrightarrow> infer_objects recs ! i = convert_row recs (recs ! i)"
  by (simp add: infer_objects_def)

lemma keys_convert_row: "map fst (convert_row recs r) = map fst r"
  by (simp add: convert_row_def comp_def)

lemma cell_at_map_keyed:
  "cell_at (map (\<lambda>kv. (fst kv, f (fst kv) (snd kv))) r) c =
     (case map_of r c of Some v \<Rightarrow> f c v | None \<Rightarrow> NaN)"
  by (induction r) (auto simp: cell_at_def)

lemma cell_at_convert_row:
  "cell_at (convert_row recs r) c =
     (if float_column (map (\<lambda>r. cell_at r c) recs) then astype_float64 (cell_at r c)
      else cell_at r c)"
proof -
  let ?f = "\<lambda>k v. if float_column (map (\<lambda>r. cell_at r k) recs) then astype_float64 v else v"
  have "cell_at (convert_row recs r) c = (case map_of r c of Some v \<Rightarrow> ?f c v | None \<Rightarrow> NaN)"
    unfolding convert_row_def by (rule cell_at_map_keyed)
  also have "\<dots> = (if float_column (map (\<lambda>r. cell_at r c) recs)
                     then astype_float64 (cell_at r c) else cell_at r c)"
    by (cases "map_of r c") (simp_all add: cell_at_def[of r c] astype_float64_def)
  finally show ?thesis .
qed

lemma astype_float64_simps:
  "astype_float64 NaN = NaN"
  "astype_float64 (Str s) = Str s"
  "astype_float64 (Flt x) = Flt x"
  "astype_float64 (Num n) = Flt (real_of_int (round_float64 n))"
  by (simp_all add: astype_float64_def)

lemma astype_float64_NaN: "astype_float64 v = NaN \<longleftrightarrow> v = NaN"
  by (cases v) (simp_all add: astype_float64_def)

lemma float_column_no_Str: "float_column vs \<Longrightarrow> Str s \<notin> set vs"
  by (auto simp: float_column_def list_all_iff is_Str_def)

lemma convert_row_null:
  "cell_at (convert_row recs r) c = NaN \<longleftrightarrow> cell_at r c = NaN"
  by (simp add: cell_at_convert_row astype_float64_NaN)

lemma convert_row_kept:
  "cell_at r c = NaN \<or> cell_at r c = Str s \<or> cell_at r c = Flt x \<Longrightarrow>
   cell_at (convert_row recs r) c = cell_at r c"
  by (auto simp: cell_at_convert_row astype_float64_simps)


lemma keys_set_convert_row: "fst ` set (convert_row recs r) = fst ` set r"
  using keys_convert_row[of recs r] by (simp flip: set_map)

lemma infer_objects_no_Num:
  assumes "\<forall>r\<in>set recs. \<forall>kv\<in>set r. \<not> is_Num (snd kv)"
  shows "infer_objects recs = recs"
proof -
  have same: "astype_float64 v = v" if "\<not> is_Num v" for v
    using that by (cases v) (simp_all add: astype_float64_def is_Num_def)
  have "convert_row recs r = r" if r: "r \<in> set recs" for r
  proof -
    have "astype_float64 (snd kv) = snd kv" if "kv \<in> set r" for kv
      using assms r that by (intro same) blast
    then show ?thesis
      by (simp add: convert_row_def map_idI)
  qed
  then show ?thesis
    by (simp add: infer_objects_def map_idI)
qed

lemma filter_no_key: "k \<notin> fst ` set r \<Longrightarrow> filter (\<lambda>kv. fst kv \<noteq> k) r = r"
  by (induction r) auto

lemma rows_add_serial_number:
  "rows (add_serial_number (DataFrame recs)) = numbered (infer_objects recs)"
proof (cases "sr_no \<in> set (columns (DataFrame recs))")
  case True
  then show ?thesis
    by (simp add: add_serial_number_def insert_first_def drop_column_def rows_DataFrame
        numbered_def zip_map_map case_prod_beta length_infer_objects del: upt_Suc)
next
  case False
  then have "\<forall>r\<in>set recs. sr_no \<notin> fst ` set (convert_row recs r)"
    by (simp add: set_columns_DataFrame keys_set_convert_row)
  then have "\<forall>r\<in>set (infer_objects recs). filter (\<lambda>kv. fst kv \<noteq> sr_no) r = r"
    by (auto simp: infer_objects_def intro!: filter_no_key)
  then have "\<forall>ir\<in>set (zip [1..<length recs + 1] (infer_objects recs)).
               filter (\<lambda>kv. fst kv \<noteq> sr_no) (snd ir) = snd ir"
    by (auto dest: set_zip_rightD)
  with False show ?thesis
    by (simp add: add_serial_number_def insert_first_def rows_DataFrame numbered_def
        zip_map1 case_prod_beta length_infer_objects del: upt_Suc cong: map_cong)
qed

lemma cell_at_filter_key:
  "c \<noteq> k \<Longrightarrow> cell_at (filter (\<lambda>kv. fst kv \<noteq> k) r) c = cell_at r c"
  by (induction r) (auto simp: cell_at_def)

lemma numbered_nth:
  "i < length recs \<Longrightarrow>
   numbered recs ! i = (sr_no, Num (int i + 1)) # filter (\<lambda>kv. fst kv \<noteq> sr_no) (recs ! i)"
  by (simp add: numbered_def del: upt_Suc)

lemma length_numbered: "length (numbered recs) = length recs"
  by (simp add: numbered_def del: upt_Suc)

lemma numbered_elem:
  assumes "r' \<in> set (numbered recs)"
  obtains i where "i < length recs"
    and "r' = (sr_no, Num (int i + 1)) # filter (\<lambda>kv. fst kv \<noteq> sr_no) (recs ! i)"
proof -
  from assms obtain i where "i < length (numbered recs)" "r' = numbered recs ! i"
    by (auto simp: in_set_conv_nth)
  then show ?thesis
    using that by (simp add: length_numbered numbered_nth)
qed

lemma cell_at_numbered:
  assumes "r' = (sr_no, v) # filter (\<lambda>kv. fst kv \<noteq> sr_no) r" and "c \<noteq> sr_no"
  shows "cell_at r' c = cell_at r c"
proof -
  have "cell_at r' c = cell_at (filter (\<lambda>kv. fst kv \<noteq> sr_no) r) c"
    using assms by (simp add: cell_at_def)
  then show ?thesis
    using assms(2) by (simp add: cell_at_filter_key)
qed

lemma removed_candidates_short:
  "length (sorted_keys d) \<le> 1 \<Longrightarrow> removed_candidates d h = []"
  by (simp add: removed_candidates_def)

lemma reconcile_spec:
  assumes "store_chipsets d (sorted_keys d) Map.empty = Inr h"
  shows "filter (\<lambda>entry. ident entry \<in> the (h (sorted_keys d ! 0)))
           (filter (\<lambda>entry. ident entry \<notin> reappeared_ids d h) (removed_candidates d h)) =
         removed_list d h"
proof (cases "length (sorted_keys d) \<le> 1")
  case True
  then show ?thesis by (simp add: removed_candidates_short removed_list_def)
next
  case False
  then have "0 < length (sorted_keys d)" by (cases "sorted_keys d") simp_all
  from history_at(1)[OF assms this] show ?thesis
    by (simp add: removed_list_def conj_commute)
qed

lemma compare_chipsets_Inr:
  assumes "store_chipsets d (sorted_keys d) Map.empty = Inr h"
  shows "compare_chipsets d =
     Inr (add_serial_number (DataFrame (added_list d h)),
          add_serial_number (DataFrame (removed_list d h)),
          add_serial_number (DataFrame (reappeared_list d h)))"
  using reconcile_spec[OF assms]
  by (simp add: compare_chipsets_def assms added_list_def reappeared_list_def
      reappeared_ids_def removed_candidates_def Let_def case_prod_beta)

lemma compare_chipsets_cases:
  obtains (fail) "compare_chipsets d = Inl (KeyError chipset_sp)"
  | (ok) h where "store_chipsets d (sorted_keys d) Map.empty = Inr h"
proof (cases "store_chipsets d (sorted_keys d) Map.empty")
  case (Inl e)
  then have "compare_chipsets d = Inl (KeyError chipset_sp)"
    using store_chipsets_Inl[OF Inl] by (simp add: compare_chipsets_def)
  then show ?thesis by (rule fail)
next
  case (Inr h)
  then show ?thesis by (rule ok)
qed



lemma concat_filter_elem:
  "r \<in> set (concat (map (\<lambda>i. filter (Q i) (recs i)) is)) \<Longrightarrow>
   \<exists>i\<in>set is. r \<in> set (recs i) \<and> Q i r"
  by auto

lemma classified_from_records:
  assumes "store_chipsets d (sorted_keys d) Map.empty = Inr h"
    and "r \<in> set (added_list d h) \<union> set (removed_candidates d h) \<union> set (reappeared_list d h)"
  shows "\<exists>i<length (sorted_keys d). r \<in> set (records d i) \<and> ident r \<in> S d i"
proof -
  let ?n = "length (sorted_keys d)"
  from assms(2) consider
    (a) "r \<in> set (added_list d h)" | (b) "r \<in> set (removed_candidates d h)"
    | (c) "r \<in> set (reappeared_list d h)" by blast
  then obtain i where "i < ?n" "r \<in> set (records d i)" "ident r \<in> S d i"
  proof cases
    case a
    from concat_filter_elem[OF a[unfolded added_list_closed[OF assms(1)]]]
    obtain i where "i \<in> set [0..<?n]" "r \<in> set (records d i)" "ident r \<in> S d i" by blast
    then show ?thesis using that by auto
  next
    case b
    from concat_filter_elem[OF b[unfolded removed_candidates_closed[OF assms(1)]]]
    obtain i where i: "i \<in> set [0..<?n - 1]" "r \<in> set (records d i)" "ident r \<in> S d i" by blast
    from i(1) have "i < ?n" by simp
    with i show ?thesis using that by blast
  next
    case c
    from concat_filter_elem[OF c[unfolded reappeared_closed(1)[OF assms(1)]]]
    obtain i where "i \<in> set [2..<?n]" "r \<in> set (records d i)" "ident r \<in> S d i" by blast
    then show ?thesis using that by auto
  qed
  then show ?thesis by blast
qed

lemma removed_list_subset: "set (removed_list d h) \<subseteq> set (removed_candidates d h)"
  by (auto simp: removed_list_def)

lemma sorted_keys_single: "dom d = {y} \<Longrightarrow> sorted_keys d = [y]"
  by (simp add: sorted_keys_def)


lemmas eval_defs = S_def period_def records_def identifier_set_def
  to_dict_records_def cell_at_def frame_def rec1_def getitem_def series_def dropna_def unique_def

lemma two_periods_keys: "sorted_keys two_periods = [2020, 2021]"
  unfolding two_periods_def sorted_keys_map_of by simp



lemma compare_frames:
  assumes "store_chipsets d (sorted_keys d) Map.empty = Inr h"
    and "compare_chipsets d = Inr (A, R, P)"
  shows "A = add_serial_number (DataFrame (added_list d h))"
    and "R = add_serial_number (DataFrame (removed_list d h))"
    and "P = add_serial_number (DataFrame (reappeared_list d h))"
  using assms(2)[unfolded compare_chipsets_Inr[OF assms(1)]] by simp_all

lemma compare_rows:
  assumes "store_chipsets d (sorted_keys d) Map.empty = Inr h"
    and "compare_chipsets d = Inr (A, R, P)"
  shows "rows A = numbered (infer_objects (added_list d h))"
    and "rows R = numbered (infer_objects (removed_list d h))"
    and "rows P = numbered (infer_objects (reappeared_list d h))"
  by (simp_all only: compare_frames[OF assms] rows_add_serial_number)

lemma output_nth:
  assumes "j < length recs"
  shows "numbered (infer_objects recs) ! j =
           (sr_no, Num (int j + 1)) #
             filter (\<lambda>kv. fst kv \<noteq> sr_no) (convert_row recs (recs ! j))"
  using assms by (simp add: numbered_nth length_infer_objects infer_objects_nth)

lemma output_cell:
  assumes "j < length recs" and "c \<noteq> sr_no"
  shows "cell_at (numbered (infer_objects recs) ! j) c = cell_at (convert_row recs (recs ! j)) c"
  by (rule cell_at_numbered[OF output_nth[OF assms(1)] assms(2)])


lemma output_lists:
  assumes "store_chipsets d (sorted_keys d) Map.empty = Inr h"
    and "compare_chipsets d = Inr (A, R, P)"
    and "out \<in> {A, R, P}"
  obtains recs where "rows out = numbered (infer_objects recs)"
    and "set recs \<subseteq> set (added_list d h) \<union> set (removed_candidates d h)
           \<union> set (reappeared_list d h)"
proof -
  note rows = compare_rows[OF assms(1,2)]
  from assms(3) consider "out = A" | "out = R" | "out = P" by blast
  then show ?thesis
  proof cases
    case 1
    then show ?thesis using that[of "added_list d h"] rows(1) by auto
  next
    case 2
    then show ?thesis
      using that[of "removed_list d h"] rows(2) removed_list_subset[of d h] by auto
  next
    case 3
    then show ?thesis using that[of "reappeared_list d h"] rows(3) by auto
  qed
qed

text \<open>
  Every row of an output comes from a record of some period that was selected through
  its identifier.
\<close>

lemma output_row:
  assumes "store_chipsets d (sorted_keys d) Map.empty = Inr h"
    and "compare_chipsets d = Inr (A, R, P)"
    and "out \<in> {A, R, P}"
    and "j < length (rows out)"
  obtains recs i where "rows out = numbered (infer_objects recs)"
    and "j < length recs"
    and "i < length (sorted_keys d)"
    and "recs ! j \<in> set (records d i)"
    and "ident (recs ! j) \<in> S d i"
proof -
  from assms(1-3) obtain recs where out: "rows out = numbered (infer_objects recs)"
    and recs: "set recs \<subseteq> set (added_list d h) \<union> set (removed_candidates d h)
           \<union> set (reappeared_list d h)"
    by (rule output_lists)
  from assms(4) have j: "j < length recs"
    by (simp add: out length_numbered length_infer_objects)
  with recs have "recs ! j \<in> set (added_list d h) \<union> set (removed_candidates d h)
      \<union> set (reappeared_list d h)"
    using nth_mem by blast
  from classified_from_records[OF assms(1) this] obtain i where
    "i < length (sorted_keys d)" "recs ! j \<in> set (records d i)" "ident (recs ! j) \<in> S d i"
    by blast
  with out j show ?thesis by (rule that)
qed




lemma four_periods_keys: "sorted_keys four_periods = [2020, 2021, 2022, 2023]"
  unfolding four_periods_def sorted_keys_map_of by simp

lemma four_periods_at:
  "four_periods 2020 = Some (frame [rec1 ''a'' ''p1'', rec1 ''b'' ''p1'', rec1 ''x'' ''p1''])"
  "four_periods 2021 = Some (frame [rec1 ''x'' ''p2'', rec1 ''y'' ''p2''])"
  "four_periods 2022 = Some (frame [rec1 ''a'' ''p3'', rec1 ''x'' ''p3''])"
  "four_periods 2023 = Some (frame [rec1 ''x'' ''p4''])"
  by (simp_all add: four_periods_def)

lemma four_periods_store:
  "store_chipsets four_periods (sorted_keys four_periods) Map.empty = Inr four_periods_history"
  by (simp add: four_periods_keys four_periods_at four_periods_history_def eval_defs)

lemma four_periods_idx:
  "[0..<length (sorted_keys four_periods) - 1] = [0, 1, 2]"
  "[2..<length (sorted_keys four_periods)] = [2, 3]"
  by (simp_all add: four_periods_keys upt_rec)

lemma four_periods_lists:
  "added_list four_periods four_periods_history =
     [rec1 ''a'' ''p1'', rec1 ''b'' ''p1'', rec1 ''x'' ''p1'', rec1 ''y'' ''p2'']"
  "removed_candidates four_periods four_periods_history =
     [rec1 ''b'' ''p1'', rec1 ''y'' ''p2'', rec1 ''a'' ''p3'']"
  "reappeared_list four_periods four_periods_history = [rec1 ''a'' ''p3'']"
  "reappeared_ids four_periods four_periods_history = {Str ''a''}"
  unfolding added_list_def removed_candidates_def reappeared_list_def reappeared_ids_def
    four_periods_idx
     apply (simp_all add: four_periods_keys Let_def)
     apply (simp_all add: four_periods_at four_periods_history_def)
     apply (simp_all add: select_isin_filter cell_at_def frame_def rec1_def)
  done

lemma four_periods_S0: "S four_periods 0 = {Str ''a'', Str ''b'', Str ''x''}"
  by (simp add: four_periods_keys four_periods_at eval_defs)





lemma four_periods_compare: "compare_chipsets four_periods = Inr four_periods_out"
  unfolding compare_chipsets_Inr[OF four_periods_store] removed_list_def four_periods_lists
    four_periods_S0
  apply (simp add: cell_at_def rec1_def)
  apply (simp add: DataFrame_def rec1_def infer_objects_no_Num is_Num_def)
  apply (simp add: add_serial_number_def drop_column_def insert_first_def Let_def upt_rec)
  apply (simp add: four_periods_out_def out_frame_def rec1_def)
  done

lemma single_period_dom: "dom single_period = {2020}"
  by (simp add: single_period_def)

lemma single_period_at: "single_period 2020 = Some null_frame"
  by (simp add: single_period_def)

lemma null_frame_column: "chipset_sp \<in> set (columns null_frame)"
  by (simp add: null_frame_def frame_def)

lemma sorted_keys_empty: "sorted_keys Map.empty = []"
  by (simp add: sorted_keys_def)

lemma add_serial_number_empty: "add_serial_number (DataFrame []) = empty_out"
  by (simp add: add_serial_number_def DataFrame_def infer_objects_def insert_first_def
      empty_out_def)

lemma compare_chipsets_single:
  assumes "dom d = {y}" and "d y = Some P" and "chipset_sp \<in> set (columns P)"
  shows "compare_chipsets d =
     Inr (add_serial_number (DataFrame (filter (\<lambda>r. ident r \<noteq> NaN) (to_dict_records P))),
          empty_out, empty_out)"
proof -
  have keys: "sorted_keys d = [y]"
    by (rule sorted_keys_single[OF assms(1)])
  let ?h = "[y \<mapsto> identifier_set P]"
  have store: "store_chipsets d (sorted_keys d) Map.empty = Inr ?h"
    using assms(2,3) by (simp add: keys getitem_def identifier_set_series)
  have "added_list d ?h = filter (\<lambda>r. ident r \<in> identifier_set P) (to_dict_records P)"
    using assms(2,3) by (simp add: added_list_def keys select_isin_records)
  also have "\<dots> = filter (\<lambda>r. ident r \<noteq> NaN) (to_dict_records P)"
    using assms(3) by (intro filter_cong refl) (rule ident_in_identifier_set)
  finally have added: "added_list d ?h = filter (\<lambda>r. ident r \<noteq> NaN) (to_dict_records P)" .
  have removed: "removed_list d ?h = []"
    by (simp add: removed_list_def removed_candidates_def keys)
  have reappeared: "reappeared_list d ?h = []"
    by (simp add: reappeared_list_def keys)
  show ?thesis
    unfolding compare_chipsets_Inr[OF store] added removed reappeared add_serial_number_empty ..
qed

lemma null_frame_added:
  "add_serial_number (DataFrame (filter (\<lambda>r. ident r \<noteq> NaN) (to_dict_records null_frame))) =
     out_frame [(sr_no, Num 1) # rec1 ''a'' ''u'']"
  apply (simp add: null_frame_def to_dict_records_def frame_def cell_at_def rec1_def)
  apply (simp add: DataFrame_def infer_objects_no_Num is_Num_def)
  apply (simp add: add_serial_number_def drop_column_def insert_first_def Let_def upt_rec)
  apply (simp add: out_frame_def)
  done

lemma single_period_compare: "compare_chipsets single_period = Inr single_period_out"
  unfolding compare_chipsets_single[OF single_period_dom single_period_at null_frame_column]
    null_frame_added single_period_out_def ..

lemma empty_id_period_compare:
  "compare_chipsets empty_id_period =
     Inr (out_frame [(sr_no, Num 1) # rec1 '''' ''u'', (sr_no, Num 2) # rec1 ''a'' ''v''],
          empty_out, empty_out)"
proof -
  have "dom empty_id_period = {2020}"
    and "empty_id_period 2020 = Some (frame [rec1 '''' ''u'', rec1 ''a'' ''v''])"
    and "chipset_sp \<in> set (columns (frame [rec1 '''' ''u'', rec1 ''a'' ''v'']))"
    by (simp_all add: empty_id_period_def frame_def)
  note single = compare_chipsets_single[OF this]
  show ?thesis
    unfolding single
    apply (simp add: to_dict_records_def frame_def cell_at_def rec1_def)
    apply (simp add: DataFrame_def infer_objects_no_Num is_Num_def)
    apply (simp add: add_serial_number_def drop_column_def insert_first_def Let_def upt_rec)
    apply (simp add: out_frame_def)
    done
qed

lemma empty_id_period_keys: "sorted_keys empty_id_period = [2020]"
  unfolding empty_id_period_def sorted_keys_map_of by simp

lemma empty_id_period_store:
  "store_chipsets empty_id_period (sorted_keys empty_id_period) Map.empty =
     Inr [2020 \<mapsto> {Str '''', Str ''a''}]"
proof -
  have at: "empty_id_period 2020 = Some (frame [rec1 [] ''u'', rec1 ''a'' ''v''])"
    by (simp add: empty_id_period_def)
  show ?thesis
    by (simp add: empty_id_period_keys at eval_defs)
qed


lemma compare_chipsets_empty:
  "compare_chipsets Map.empty = Inr (empty_out, empty_out, empty_out)"
proof -
  have store: "store_chipsets Map.empty (sorted_keys Map.empty) Map.empty = Inr Map.empty"
    by (simp add: sorted_keys_empty)
  show ?thesis
    unfolding compare_chipsets_Inr[OF store]
    by (simp add: added_list_def removed_list_def removed_candidates_def reappeared_list_def
        sorted_keys_empty add_serial_number_empty)
qed

lemma load_data_serial_frame: "load_data (Some serial_frame) = Some serial_frame"
  by (simp add: load_data_def loc_columns_def serial_frame_def startswith_def rec1_def)

lemma sorted_keys_ascending: "sorted_wrt (<) (sorted_keys d)"
  by (simp add: sorted_keys_def)

lemma compare_chipsets_KeyError:
  assumes "y \<in> set (sorted_keys d)" and "chipset_sp \<notin> set (columns (the (d y)))"
  shows "compare_chipsets d = Inl (KeyError chipset_sp)"
proof (cases d rule: compare_chipsets_cases)
  case fail
  then show ?thesis .
next
  case (ok h)
  with assms show ?thesis by (simp add: store_chipsets_Inr)
qed

lemma empty_id_period_at:
  "empty_id_period 2020 = Some (frame [rec1 '''' ''u'', rec1 ''a'' ''v''])"
  by (simp add: empty_id_period_def)

lemma empty_id_period_S0: "S empty_id_period 0 = {Str '''', Str ''a''}"
  by (simp add: S_def period_def empty_id_period_keys empty_id_period_at identifier_set_def
      frame_def rec1_def cell_at_def)

lemma set_py_set: "admissible ord \<Longrightarrow> set (py_set ord xs) = set xs"
  by (simp add: admissible_def py_set_def)

lemma set_py_difference: "admissible ord \<Longrightarrow> set (py_difference ord a b) = set a - set b"
  by (auto simp: admissible_def py_difference_def)

lemma set_py_intersection:
  "admissible ord \<Longrightarrow> set (py_intersection ord a b) = set a \<inter> set b"
  by (auto simp: admissible_def py_intersection_def)

lemma set_py_update: "admissible ord \<Longrightarrow> set (py_update ord a b) = set a \<union> set b"
  by (auto simp: admissible_def py_update_def)

lemma set_py_union_all_from:
  "admissible ord \<Longrightarrow> set (foldl (py_update ord) acc ls) = set acc \<union> \<Union> (set (map set ls))"
  by (induction ls arbitrary: acc) (auto simp: set_py_update)

lemma set_py_union_all:
  "admissible ord \<Longrightarrow> set (py_union_all ord ls) = \<Union> (set (map set ls))"
  by (simp add: py_union_all_def set_py_union_all_from)

lemma represents_the: "represents hl h Y \<Longrightarrow> y \<in> Y \<Longrightarrow> set (the (hl y)) = the (h y)"
  by (auto simp: represents_def)

lemma store_chipsets_it_sim:
  assumes "admissible ord"
  shows "represents hl0 h0 Y \<Longrightarrow>
    (case store_chipsets_it ord d ys hl0 of
       Inl e \<Rightarrow> store_chipsets d ys h0 = Inl e
     | Inr hl \<Rightarrow> (\<exists>h. store_chipsets d ys h0 = Inr h \<and> represents hl h (Y \<union> set ys)))"
proof (induction ys arbitrary: hl0 h0 Y)
  case Nil
  then show ?case by simp
next
  case (Cons y ys)
  show ?case
  proof (cases "getitem (the (d y)) chipset_sp")
    case (Inl e)
    then show ?thesis by simp
  next
    case (Inr col)
    let ?l = "py_set ord (unique (dropna col))"
    let ?s = "set (unique (dropna col))"
    have "represents (hl0(y \<mapsto> ?l)) (h0(y \<mapsto> ?s)) (insert y Y)"
      using Cons.prems by (auto simp: represents_def set_py_set[OF assms])
    note IH = Cons.IH[OF this]
    have 1: "store_chipsets_it ord d (y # ys) hl0 = store_chipsets_it ord d ys (hl0(y \<mapsto> ?l))"
      by (simp add: Inr)
    have 2: "store_chipsets d (y # ys) h0 = store_chipsets d ys (h0(y \<mapsto> ?s))"
      by (simp add: Inr)
    have 3: "Y \<union> set (y # ys) = insert y Y \<union> set ys"
      by auto
    show ?thesis
      unfolding 1 2 3 by (rule IH)
  qed
qed

lemma find_added_it_sim:
  assumes "admissible ord" and "represents hl h (set ys)"
  shows "map_prod set id (find_added_it ord d hl ys (pl, acc)) = find_added d h ys (set pl, acc)"
  using assms(2)
proof (induction ys arbitrary: pl acc)
  case Nil
  show ?case by simp
next
  case (Cons y ys)
  have y: "set (the (hl y)) = the (h y)"
    using Cons.prems by (auto simp: represents_def)
  have "represents hl h (set ys)"
    using Cons.prems by (auto simp: represents_def)
  from Cons.IH[OF this] show ?case
    by (simp add: Let_def set_py_difference[OF assms(1)] set_py_update[OF assms(1)] y)
qed

lemma find_removed_it_sim:
  assumes "admissible ord" and "represents hl h (set yl)" and "\<forall>i\<in>set is. i < length yl"
  shows "map_prod set id (find_removed_it ord d hl yl is (sl, acc)) =
           find_removed d h yl is (set sl, acc)"
  using assms(3)
proof (induction "is" arbitrary: sl acc)
  case Nil
  show ?case by simp
next
  case (Cons i "is")
  then have i: "yl ! i \<in> set yl" by simp
  have later: "(\<Union>x\<in>set (drop (Suc i) yl). set (the (hl x))) =
               (\<Union>y\<in>set (drop (Suc i) yl). the (h y))"
    using represents_the[OF assms(2)] by (auto dest: in_set_dropD)
  from Cons show ?case
    by (simp add: Let_def set_py_difference[OF assms(1)] set_py_update[OF assms(1)]
        set_py_union_all[OF assms(1)] represents_the[OF assms(2) i] later)
qed

lemma find_reappeared_it_sim:
  assumes "admissible ord" and "represents hl h (set yl)" and "\<forall>i\<in>set is. i < length yl"
  shows "map_prod set id (find_reappeared_it ord d hl yl is (sl, acc)) =
           find_reappeared d h yl is (set sl, acc)"
  using assms(3)
proof (induction "is" arbitrary: sl acc)
  case Nil
  show ?case by simp
next
  case (Cons i "is")
  then have "i < length yl" by simp
  then have "yl ! i \<in> set yl" "yl ! (i - Suc 0) \<in> set yl" "yl ! (i - 2) \<in> set yl"
    by (simp_all add: less_imp_diff_less)
  note the = this[THEN represents_the[OF assms(2)]]
  from Cons show ?case
    by (simp add: Let_def set_py_difference[OF assms(1)] set_py_update[OF assms(1)]
        set_py_intersection[OF assms(1)] the)
qed

lemma compare_chipsets_it_eq:
  assumes "admissible ord"
  shows "compare_chipsets_it ord d = compare_chipsets d"
proof (cases "store_chipsets_it ord d (sorted_keys d) Map.empty")
  case (Inl e)
  have "represents Map.empty Map.empty ({} :: 'a set)"
    by (simp add: represents_def)
  from store_chipsets_it_sim[OF assms this, of d "sorted_keys d"] Inl
  have "store_chipsets d (sorted_keys d) Map.empty = Inl e" by simp
  with Inl show ?thesis
    by (simp add: compare_chipsets_it_def compare_chipsets_def)
next
  case (Inr hl)
  let ?yl = "sorted_keys d"
  have "represents Map.empty Map.empty ({} :: 'a set)"
    by (simp add: represents_def)
  from store_chipsets_it_sim[OF assms this, of d ?yl] Inr
  obtain h where h: "store_chipsets d ?yl Map.empty = Inr h" and rep: "represents hl h (set ?yl)"
    by auto
  let ?a = "find_added_it ord d hl ?yl ([], [])"
  let ?m = "find_removed_it ord d hl ?yl [0..<length ?yl - 1] ([], [])"
  let ?p = "find_reappeared_it ord d hl ?yl [2..<length ?yl] ([], [])"
  have "map_prod set id ?a = find_added d h ?yl ({}, [])"
    using find_added_it_sim[OF assms rep, of d "[]" "[]"] by simp
  then have a: "snd ?a = added_list d h"
    unfolding added_list_def
    by (metis snd_map_prod id_apply)
  have "map_prod set id ?m = find_removed d h ?yl [0..<length ?yl - 1] ({}, [])"
  proof -
    have "\<forall>i\<in>set [0..<length ?yl - 1]. i < length ?yl" by auto
    from find_removed_it_sim[OF assms rep this, of d "[]" "[]"] show ?thesis by simp
  qed
  then have m: "snd ?m = removed_candidates d h"
    unfolding removed_candidates_def by (metis snd_map_prod id_apply)
  have "map_prod set id ?p = find_reappeared d h ?yl [2..<length ?yl] ({}, [])"
  proof -
    have "\<forall>i\<in>set [2..<length ?yl]. i < length ?yl" by auto
    from find_reappeared_it_sim[OF assms rep this, of d "[]" "[]"] show ?thesis by simp
  qed
  then have p: "snd ?p = reappeared_list d h" "set (fst ?p) = reappeared_ids d h"
    unfolding reappeared_list_def reappeared_ids_def
    by (metis snd_map_prod id_apply, metis fst_map_prod)
  have first: "filter (\<lambda>entry. ident entry \<in> set (the (hl (?yl ! 0)))) xs =
               filter (\<lambda>entry. ident entry \<in> the (h (?yl ! 0))) xs"
    if "0 < length ?yl" for xs
    using represents_the[OF rep, of "?yl ! 0"] that by simp
  have "filter (\<lambda>entry. ident entry \<in> set (the (hl (?yl ! 0))))
          (filter (\<lambda>entry. ident entry \<notin> reappeared_ids d h) (removed_candidates d h)) =
        filter (\<lambda>entry. ident entry \<in> the (h (?yl ! 0)))
          (filter (\<lambda>entry. ident entry \<notin> reappeared_ids d h) (removed_candidates d h))"
  proof (cases "0 < length ?yl")
    case True
    then show ?thesis by (rule first)
  next
    case False
    then show ?thesis by (simp add: removed_candidates_short)
  qed
  then have removed:
    "filter (\<lambda>entry. ident entry \<in> set (the (hl (?yl ! 0))))
       (filter (\<lambda>entry. ident entry \<notin> reappeared_ids d h) (snd ?m)) = removed_list d h"
    unfolding m by (simp only: reconcile_spec[OF h])
  have "compare_chipsets_it ord d =
          Inr (add_serial_number (DataFrame (snd ?a)),
               add_serial_number (DataFrame
                 (filter (\<lambda>entry. ident entry \<in> set (the (hl (?yl ! 0))))
                    (filter (\<lambda>entry. ident entry \<notin> set (fst ?p)) (snd ?m)))),
               add_serial_number (DataFrame (snd ?p)))"
    by (simp add: compare_chipsets_it_def Inr case_prod_beta Let_def)
  also have "\<dots> = compare_chipsets d"
    unfolding removed a p compare_chipsets_Inr[OF h] ..
  finally show ?thesis .
qed

lemma admissible_examples: "admissible (\<lambda>xs. xs)" "admissible rev"
  by (simp_all add: admissible_def)

lemma two_periods_idx:
  "[0..<length (sorted_keys two_periods) - 1] = [0]"
  "[2..<length (sorted_keys two_periods)] = []"
  by (simp_all add: two_periods_keys)













lemma upt_11: "[0..<11] = [0, 1, 2, 3, 4, 5, 6, 7, 8, 9, 10]"
  by (simp add: upt_rec)


lemma round_float64_exact: "\<bar>n\<bar> < 2 ^ 53 \<Longrightarrow> round_float64 n = n"
  by (simp add: round_float64_def Let_def upt_11 mult_sgn_abs)



section \<open>The claims\<close>









text \<open>
  Claim C5, as amended. For a mapping with exactly one period whose frame \<open>P\<close> has the
  identifier column, the comparator returns as Added the records of \<open>P\<close> that have a
  non-null identifier, in their original order and numbered, and Removed and Reappeared
  empty. A record whose identifier is null or missing is left out of Added.
\<close>

theorem single_period_added:
  assumes "dom d = {y}" and "d y = Some P" and "chipset_sp \<in> set (columns P)"
  shows "compare_chipsets d =
     Inr (add_serial_number (DataFrame (filter (\<lambda>r. ident r \<noteq> NaN) (to_dict_records P))),
          empty_out, empty_out)"
  by (rule compare_chipsets_single[OF assms])

theorem single_period_added_witness:
  "dom single_period = {2020} \<and> single_period 2020 = Some null_frame \<and>
   chipset_sp \<in> set (columns null_frame) \<and>
   compare_chipsets single_period =
     Inr (out_frame [(sr_no, Num 1) # rec1 ''a'' ''u''], empty_out, empty_out)"
  using single_period_added[OF single_period_dom single_period_at null_frame_column]
    single_period_dom single_period_at null_frame_column
  by (simp only: null_frame_added simp_thms)

text \<open>
  Counterexample to claim C5 as stated: a single period of three records, two of them
  without an identifier, gives an Added output of one record.
\<close>

theorem single_period_null_counterexample:
  "dom single_period = {2020} \<and>
   compare_chipsets single_period =
     Inr (out_frame [(sr_no, Num 1) # rec1 ''a'' ''u''], empty_out, empty_out) \<and>
   length (rows (the (single_period 2020))) = 3 \<and>
   length (rows (out_frame [(sr_no, Num 1) # rec1 ''a'' ''u''])) = 1"
  using single_period_compare single_period_dom
  by (simp add: single_period_out_def single_period_at null_frame_def frame_def out_frame_def)

text \<open>
  Claim C6. The comparator on a period that holds a record with the empty string as its
  identifier: the empty string is kept in the identifier set of the period, and its record
  is classified as Added. Only the null value is dropped when the identifier sets are
  built.
\<close>

theorem empty_identifier_classified:
  "store_chipsets empty_id_period (sorted_keys empty_id_period) Map.empty =
     Inr [2020 \<mapsto> {Str '''', Str ''a''}] \<and>
   S empty_id_period 0 = {Str '''', Str ''a''} \<and>
   compare_chipsets empty_id_period =
     Inr (out_frame [(sr_no, Num 1) # rec1 '''' ''u'', (sr_no, Num 2) # rec1 ''a'' ''v''],
          empty_out, empty_out)"
  using empty_id_period_store empty_id_period_S0 empty_id_period_compare by simp

text \<open>
  Claim C7, as amended. On the empty mapping the comparator reports no failure: it returns
  three empty output collections, each holding only the serial-number column.
\<close>

theorem empty_mapping_outputs:
  "compare_chipsets Map.empty = Inr (empty_out, empty_out, empty_out)"
  by (rule compare_chipsets_empty)

text \<open>
  Counterexample to claim C7 as stated: the result on the empty mapping is not an error.
\<close>

theorem empty_mapping_counterexample:
  "\<not> isl (compare_chipsets (Map.empty :: nat \<rightharpoonup> dataframe))"
  by (simp add: compare_chipsets_empty)

text \<open>
  Claim C8. The comparator is deterministic. The one thing that can differ between two
  runs on the same input is the order in which Python iterates over its sets; with the sets
  modelled as lists in iteration order, two runs with any two admissible orders return the
  same three outputs, the same records in the same order, and these are the outputs of
  \<open>compare_chipsets\<close>.
\<close>

theorem compare_chipsets_deterministic:
  assumes "admissible ord1" and "admissible ord2"
  shows "compare_chipsets_it ord1 d = compare_chipsets_it ord2 d \<and>
         compare_chipsets_it ord1 d = compare_chipsets d"
  by (simp add: compare_chipsets_it_eq[OF assms(1)] compare_chipsets_it_eq[OF assms(2)])

theorem compare_chipsets_deterministic_witness:
  "admissible (\<lambda>xs. xs) \<and> admissible rev \<and>
   compare_chipsets_it (\<lambda>xs. xs) four_periods = Inr four_periods_out \<and>
   compare_chipsets_it rev four_periods = Inr four_periods_out"
  using compare_chipsets_deterministic[OF admissible_examples, of four_periods]
    admissible_examples four_periods_compare
  by metis




text \<open>
  Claim C10. Every record of the Added, Removed and Reappeared outputs has a non-null
  identifier.
\<close>

theorem outputs_non_null:
  assumes "compare_chipsets d = Inr (A, R, P)"
  shows "\<forall>r\<in>set (rows A) \<union> set (rows R) \<union> set (rows P). ident r \<noteq> NaN"
proof
  fix r'
  assume "r' \<in> set (rows A) \<union> set (rows R) \<union> set (rows P)"
  then obtain out j where out: "out \<in> {A, R, P}" and j: "j < length (rows out)"
    and r': "r' = rows out ! j"
    by (auto simp: in_set_conv_nth)
  obtain h where store: "store_chipsets d (sorted_keys d) Map.empty = Inr h"
    using assms by (cases d rule: compare_chipsets_cases) simp_all
  from store assms out j obtain recs i where rows: "rows out = numbered (infer_objects recs)"
    and jr: "j < length recs" and id: "ident (recs ! j) \<in> S d i"
    by (rule output_row)
  have "ident r' = ident (convert_row recs (recs ! j))"
    unfolding r' rows by (rule output_cell[OF jr]) simp
  moreover from id have "ident (recs ! j) \<noteq> NaN"
    using NaN_notin_identifier_set[of "period d i"] by (auto simp: S_def)
  ultimately show "ident r' \<noteq> NaN"
    by (simp add: convert_row_null)
qed

theorem outputs_non_null_witness:
  "compare_chipsets single_period =
     Inr (out_frame [(sr_no, Num 1) # rec1 ''a'' ''u''], empty_out, empty_out) \<and>
   map ident (rows null_frame) = [Str ''a'', NaN, NaN] \<and>
   map ident (rows (out_frame [(sr_no, Num 1) # rec1 ''a'' ''u''])) = [Str ''a'']"
  using outputs_non_null[OF single_period_compare[unfolded single_period_out_def]]
    single_period_compare
  by (simp add: single_period_out_def null_frame_def out_frame_def frame_def rec1_def cell_at_def)

end
